theory Spec2Isabelle
  imports Complex_Main "HOL-Library.Multiset"
begin

section \<open>Values, errors and JSON serialisation\<close>

text \<open>
  The backend (src/main.py, src/schemas.py) handles Python dictionaries whose values are
  strings, numbers, datetimes, store identifiers, lists and nested dictionaries.
  A WebSocket object is identified by a natural number (Python compares such objects by
  identity), a datetime by a natural number of clock ticks since \<open>datetime.min\<close>, a
  store-generated identifier by a natural number.

  Three Python operations produce strings whose text the source never inspects: \<open>str(x)\<close>
  of an identifier or datetime, and \<open>x.isoformat()\<close> of a datetime. They are kept
  symbolic: \<open>PStrOf v\<close> is the string \<open>str(v)\<close>, \<open>PIso t\<close> the string \<open>t.isoformat()\<close>.
\<close>

type_synonym user_id = string
type_synonym websocket = nat
type_synonym datetime = nat
type_synonym object_id = nat

datatype pyval =
    PNone
  | PStr string
  | PFloat real
  | PInt int
  | PBool bool
  | PDatetime datetime
  | PObjectId object_id
  | PStrOf pyval
  | PIso datetime
  | PList "pyval list"
  | PDict "(string \<times> pyval) list"

datatype error =
    TypeError
  | KeyError
  | SendFailed
  | AcceptFailed
  | ValidationError
  | HTTPException nat string
  | StoreUnavailable

text \<open>The text that \<open>json.dumps\<close> produces for a value is written \<open>Json v\<close>.\<close>

datatype json_text = Json pyval

text \<open>
  \<open>json.dumps(v)\<close> without a \<open>default\<close> hook raises \<open>TypeError\<close> on a datetime or a store
  identifier object, at any depth.
\<close>

fun json_serializable :: "pyval \<Rightarrow> bool" where
  "json_serializable (PDatetime t) = False"
| "json_serializable (PObjectId i) = False"
| "json_serializable (PList vs) = list_all json_serializable vs"
| "json_serializable (PDict kvs) = list_all json_serializable (map snd kvs)"
| "json_serializable v = True"

definition json_dumps :: "pyval \<Rightarrow> error + json_text" where
  "json_dumps v = (if json_serializable v then Inr (Json v) else Inl TypeError)"

section \<open>The connection registry (class ConnectionManager)\<close>

text \<open>\<open>self.active: dict[str, list[WebSocket]]\<close>\<close>

type_synonym registry = "user_id \<rightharpoonup> websocket list"

text \<open>\<open>self.active.get(user_id, [])\<close>\<close>

definition active_get :: "registry \<Rightarrow> user_id \<Rightarrow> websocket list" where
  "active_get reg u = (case reg u of None \<Rightarrow> [] | Some conns \<Rightarrow> conns)"

text \<open>
  \<open>connect\<close>: \<open>await websocket.accept()\<close>, then
  \<open>self.active.setdefault(user_id, []).append(websocket)\<close>. The handshake is the
  framework's; whether it succeeds is the argument \<open>accept_ok\<close>. When it raises, the
  registry has not been touched.
\<close>

definition connect :: "bool \<Rightarrow> user_id \<Rightarrow> websocket \<Rightarrow> registry \<Rightarrow> error + registry" where
  "connect accept_ok u ws reg =
     (if accept_ok then Inr (reg(u \<mapsto> active_get reg u @ [ws])) else Inl AcceptFailed)"

text \<open>
  \<open>disconnect\<close>: \<open>conns.remove(websocket)\<close> deletes the first occurrence, in place, so the
  registry's own list changes; an emptied (or empty) entry is popped.
\<close>

definition disconnect :: "user_id \<Rightarrow> websocket \<Rightarrow> registry \<Rightarrow> registry" where
  "disconnect u ws reg =
     (case reg u of
        None \<Rightarrow> reg
      | Some conns \<Rightarrow>
          (let conns' = (if ws \<in> set conns then remove1 ws conns else conns)
           in if conns' = [] then reg(u := None) else reg(u \<mapsto> conns')))"

text \<open>
  The body of the \<open>try\<close> in \<open>broadcast\<close>: \<open>await ws.send_text(json.dumps(message))\<close>.
  The argument is evaluated first; then the send raises when the socket is dead
  (\<open>alive ws\<close> is false).
\<close>

definition try_send :: "(websocket \<Rightarrow> bool) \<Rightarrow> websocket \<Rightarrow> pyval \<Rightarrow> error + json_text" where
  "try_send alive ws message =
     (case json_dumps message of
        Inl e \<Rightarrow> Inl e
      | Inr txt \<Rightarrow> if alive ws then Inr txt else Inl SendFailed)"

text \<open>
  The first loop of \<open>broadcast\<close>: the texts delivered, in order, and the list \<open>stale\<close>.
  \<open>except Exception\<close> catches what the body raises.
\<close>

fun send_loop :: "(websocket \<Rightarrow> bool) \<Rightarrow> pyval \<Rightarrow> websocket list
    \<Rightarrow> (websocket \<times> json_text) list \<times> websocket list" where
  "send_loop alive message [] = ([], [])"
| "send_loop alive message (ws # rest) =
     (let (sent, stale) = send_loop alive message rest
      in case try_send alive ws message of
           Inl e \<Rightarrow> (sent, ws # stale)
         | Inr txt \<Rightarrow> ((ws, txt) # sent, stale))"

text \<open>
  \<open>broadcast\<close>: the send loop, then \<open>for ws in stale: self.disconnect(user_id, ws)\<close>.
  It returns the registry and the texts delivered; no statement of it is outside a
  handler, so it has no raising branch.
\<close>

definition broadcast :: "(websocket \<Rightarrow> bool) \<Rightarrow> user_id \<Rightarrow> pyval \<Rightarrow> registry
    \<Rightarrow> error + (registry \<times> (websocket \<times> json_text) list)" where
  "broadcast alive u message reg =
     (let (sent, stale) = send_loop alive message (active_get reg u)
      in Inr (fold (disconnect u) stale reg, sent))"

text \<open>
  A run of registry operations. Each \<open>Connect\<close> carries the outcome of its handshake,
  each \<open>Broadcast\<close> the sockets that are alive when it runs. A failed \<open>connect\<close> leaves
  the registry as it was.
\<close>

datatype op =
    Connect user_id websocket bool
  | Disconnect user_id websocket
  | Broadcast user_id pyval "websocket \<Rightarrow> bool"

fun step :: "op \<Rightarrow> registry \<Rightarrow> registry" where
  "step (Connect u ws accept_ok) reg =
     (case connect accept_ok u ws reg of Inl e \<Rightarrow> reg | Inr reg' \<Rightarrow> reg')"
| "step (Disconnect u ws) reg = disconnect u ws reg"
| "step (Broadcast u message alive) reg =
     (case broadcast alive u message reg of Inl e \<Rightarrow> reg | Inr (reg', sent) \<Rightarrow> reg')"

definition run :: "op list \<Rightarrow> registry \<Rightarrow> registry" where
  "run ops reg = fold step ops reg"

text \<open>No user is registered with an empty list of connections.\<close>

definition registry_ok :: "registry \<Rightarrow> bool" where
  "registry_ok reg = (\<forall>u. reg u \<noteq> Some [])"

text \<open>The \<open>try\<close> body succeeds for a socket: the message serialises and the socket is alive.\<close>

definition send_ok :: "(websocket \<Rightarrow> bool) \<Rightarrow> pyval \<Rightarrow> websocket \<Rightarrow> bool" where
  "send_ok alive message ws = (json_serializable message \<and> alive ws)"

text \<open>
  The framework's side of the handshake. Starlette's \<open>WebSocket.accept\<close> completes the
  handshake of a socket once: on a socket that has been accepted it raises \<open>RuntimeError\<close>.
  \<open>accepted\<close> is the set of sockets whose \<open>accept\<close> has completed; \<open>handshake_ok\<close> tells whether
  the client side lets the handshake of a fresh socket complete.
\<close>

definition accept :: "bool \<Rightarrow> websocket set \<Rightarrow> websocket \<Rightarrow> bool" where
  "accept handshake_ok accepted ws = (handshake_ok \<and> ws \<notin> accepted)"

text \<open>
  A run of registry operations in which the outcome of each \<open>accept\<close> is the framework's:
  the state is the set of accepted sockets and the registry, both empty at start-up.
\<close>

fun serve_step :: "op \<Rightarrow> websocket set \<times> registry \<Rightarrow> websocket set \<times> registry" where
  "serve_step (Connect u ws handshake_ok) (accepted, reg) =
     (if accept handshake_ok accepted ws
      then (insert ws accepted, step (Connect u ws True) reg)
      else (accepted, step (Connect u ws False) reg))"
| "serve_step (Disconnect u ws) (accepted, reg) = (accepted, step (Disconnect u ws) reg)"
| "serve_step (Broadcast u message alive) (accepted, reg) =
     (accepted, step (Broadcast u message alive) reg)"

definition serve :: "op list \<Rightarrow> websocket set \<times> registry \<Rightarrow> websocket set \<times> registry" where
  "serve ops s = fold serve_step ops s"

text \<open>Every list of the registry is free of repetitions and holds accepted sockets only.\<close>

definition registered_once :: "websocket set \<times> registry \<Rightarrow> bool" where
  "registered_once s =
     (\<forall>u. distinct (active_get (snd s) u) \<and> set (active_get (snd s) u) \<subseteq> fst s)"

section \<open>Dictionaries and library functions\<close>

text \<open>
  A Python dictionary with string keys, in insertion order. \<open>dict_set\<close> is \<open>d[k] = v\<close>: an
  existing key keeps its place, a new one goes last. \<open>dict_get\<close> is \<open>d.get(k)\<close>.
\<close>

type_synonym doc = "(string \<times> pyval) list"

fun dict_set :: "string \<Rightarrow> pyval \<Rightarrow> doc \<Rightarrow> doc" where
  "dict_set k v [] = [(k, v)]"
| "dict_set k v ((k', v') # rest) =
     (if k' = k then (k, v) # rest else (k', v') # dict_set k v rest)"

definition dict_get :: "doc \<Rightarrow> string \<Rightarrow> pyval option" where
  "dict_get d k = map_of d k"

text \<open>
  \<open>json.dumps(v, default=str)\<close>: what the encoder cannot serialise is replaced by its
  \<open>str\<close>, so the call does not raise on the values of this model.
\<close>

fun stringify :: "pyval \<Rightarrow> pyval" where
  "stringify (PDatetime t) = PStrOf (PDatetime t)"
| "stringify (PObjectId i) = PStrOf (PObjectId i)"
| "stringify (PList vs) = PList (map stringify vs)"
| "stringify (PDict kvs) = PDict (map (map_prod id stringify) kvs)"
| "stringify v = v"

definition json_dumps_default_str :: "pyval \<Rightarrow> error + json_text" where
  "json_dumps_default_str v = Inr (Json (stringify v))"

text \<open>
  \<open>str.lower()\<close> on the letters A to Z; every other character of the 8-bit \<open>char\<close> type is
  left as it is (Python also folds letters outside ASCII, none of which this type holds
  apart from Latin-1 capitals, which occur in no provider name).
\<close>

definition lower_char :: "char \<Rightarrow> char" where
  "lower_char c =
     (case map_of (zip ''ABCDEFGHIJKLMNOPQRSTUVWXYZ'' ''abcdefghijklmnopqrstuvwxyz'') c of
        None \<Rightarrow> c
      | Some l \<Rightarrow> l)"

definition lower :: "string \<Rightarrow> string" where
  "lower s = map lower_char s"

text \<open>\<open>x or d\<close> on an optional string: \<open>None\<close> and the empty string are both falsy.\<close>

definition or_default :: "string option \<Rightarrow> string \<Rightarrow> string" where
  "or_default x d = (case x of None \<Rightarrow> d | Some s \<Rightarrow> if s = [] then d else s)"

text \<open>
  \<open>items.sort(key=..., reverse=True)\<close>: descending by key and stable, elements with equal
  keys keeping their original order. \<open>sort_key\<close> is the stable insertion sort of the
  library; reversing before and after gives the descending stable order.
\<close>

definition sort_reverse :: "('a \<Rightarrow> nat) \<Rightarrow> 'a list \<Rightarrow> 'a list" where
  "sort_reverse key xs = rev (sort_key key (rev xs))"

section \<open>Schemas (src/schemas.py)\<close>

text \<open>
  A request body arrives with its fields already of the right shape; the constraints of
  the \<open>Field\<close> declarations are what validation checks. Floats are real numbers. The
  validators of \<open>EmailStr\<close> and \<open>HttpUrl\<close> belong to the pydantic library: they are the
  parameters \<open>email_str\<close> and \<open>http_url\<close>, which return the accepted (normalised) string or
  \<open>None\<close> when they reject.
\<close>

record lib =
  email_str :: "string \<Rightarrow> string option"
  http_url :: "string \<Rightarrow> string option"

text \<open>A constraint on an \<open>Optional\<close> field applies when the field is present.\<close>

definition opt_ok :: "('a \<Rightarrow> bool) \<Rightarrow> 'a option \<Rightarrow> bool" where
  "opt_ok P x = (case x of None \<Rightarrow> True | Some v \<Rightarrow> P v)"

text \<open>The value of an \<open>Optional\<close> field in \<open>model_dump()\<close>.\<close>

definition opt_val :: "('a \<Rightarrow> pyval) \<Rightarrow> 'a option \<Rightarrow> pyval" where
  "opt_val f x = (case x of None \<Rightarrow> PNone | Some v \<Rightarrow> f v)"

text \<open>\<open>class Trackpoint\<close>, its validation and its \<open>model_dump()\<close>.\<close>

record trackpoint =
  tp_user_id :: string
  tp_lat :: real
  tp_lng :: real
  tp_accuracy :: "real option"
  tp_speed :: "real option"
  tp_heading :: "real option"
  tp_battery :: "real option"
  tp_ts :: "datetime option"

definition validate_trackpoint :: "trackpoint \<Rightarrow> error + trackpoint" where
  "validate_trackpoint p =
     (if - 90 \<le> tp_lat p \<and> tp_lat p \<le> 90
         \<and> - 180 \<le> tp_lng p \<and> tp_lng p \<le> 180
         \<and> opt_ok (\<lambda>a. 0 \<le> a) (tp_accuracy p)
         \<and> opt_ok (\<lambda>s. 0 \<le> s) (tp_speed p)
         \<and> opt_ok (\<lambda>h. 0 \<le> h \<and> h \<le> 360) (tp_heading p)
         \<and> opt_ok (\<lambda>b. 0 \<le> b \<and> b \<le> 100) (tp_battery p)
      then Inr p else Inl ValidationError)"

definition trackpoint_dump :: "trackpoint \<Rightarrow> doc" where
  "trackpoint_dump p =
     [(''user_id'', PStr (tp_user_id p)),
      (''lat'', PFloat (tp_lat p)),
      (''lng'', PFloat (tp_lng p)),
      (''accuracy'', opt_val PFloat (tp_accuracy p)),
      (''speed'', opt_val PFloat (tp_speed p)),
      (''heading'', opt_val PFloat (tp_heading p)),
      (''battery'', opt_val PFloat (tp_battery p)),
      (''ts'', opt_val PDatetime (tp_ts p))]"

text \<open>\<open>class Incident\<close>, its validation and its \<open>model_dump()\<close>.\<close>

record incident =
  inc_user_id :: string
  inc_type :: string
  inc_description :: "string option"
  inc_lat :: "real option"
  inc_lng :: "real option"
  inc_media_urls :: "string list"
  inc_severity :: "int option"

definition validate_incident :: "lib \<Rightarrow> incident \<Rightarrow> error + incident" where
  "validate_incident l i =
     (if opt_ok (\<lambda>x. - 90 \<le> x \<and> x \<le> 90) (inc_lat i)
         \<and> opt_ok (\<lambda>x. - 180 \<le> x \<and> x \<le> 180) (inc_lng i)
         \<and> list_all (\<lambda>u. http_url l u \<noteq> None) (inc_media_urls i)
         \<and> opt_ok (\<lambda>s. 1 \<le> s \<and> s \<le> 5) (inc_severity i)
      then Inr (i\<lparr>inc_media_urls := map (\<lambda>u. the (http_url l u)) (inc_media_urls i)\<rparr>)
      else Inl ValidationError)"

definition incident_dump :: "incident \<Rightarrow> doc" where
  "incident_dump i =
     [(''user_id'', PStr (inc_user_id i)),
      (''type'', PStr (inc_type i)),
      (''description'', opt_val PStr (inc_description i)),
      (''lat'', opt_val PFloat (inc_lat i)),
      (''lng'', opt_val PFloat (inc_lng i)),
      (''media_urls'', PList (map PStr (inc_media_urls i))),
      (''severity'', opt_val PInt (inc_severity i))]"

text \<open>\<open>class User\<close>; \<open>User\<close> is the constructor call, which validates \<open>email\<close> and \<open>photo_url\<close>.\<close>

record user =
  usr_name :: "string option"
  usr_email :: "string option"
  usr_provider :: "string option"
  usr_provider_id :: "string option"
  usr_photo_url :: "string option"
  usr_is_active :: bool

definition opt_field :: "(string \<Rightarrow> string option) \<Rightarrow> string option \<Rightarrow> error + string option" where
  "opt_field check x =
     (case x of
        None \<Rightarrow> Inr None
      | Some s \<Rightarrow> (case check s of None \<Rightarrow> Inl ValidationError | Some s' \<Rightarrow> Inr (Some s')))"

definition User :: "lib \<Rightarrow> string option \<Rightarrow> string option \<Rightarrow> string option \<Rightarrow> string option
    \<Rightarrow> string option \<Rightarrow> error + user" where
  "User l name email provider provider_id photo_url =
     (case opt_field (email_str l) email of
        Inl e \<Rightarrow> Inl e
      | Inr email' \<Rightarrow>
          (case opt_field (http_url l) photo_url of
             Inl e \<Rightarrow> Inl e
           | Inr photo' \<Rightarrow>
               Inr \<lparr>usr_name = name, usr_email = email', usr_provider = provider,
                    usr_provider_id = provider_id, usr_photo_url = photo',
                    usr_is_active = True\<rparr>))"

definition user_dump :: "user \<Rightarrow> doc" where
  "user_dump u =
     [(''name'', opt_val PStr (usr_name u)),
      (''email'', opt_val PStr (usr_email u)),
      (''provider'', opt_val PStr (usr_provider u)),
      (''provider_id'', opt_val PStr (usr_provider_id u)),
      (''photo_url'', opt_val PStr (usr_photo_url u)),
      (''is_active'', PBool (usr_is_active u))]"

text \<open>\<open>class MockAuthRequest\<close> (src/main.py).\<close>

record mock_auth_request =
  provider :: string
  token :: "string option"
  name :: "string option"
  email :: "string option"
  photo_url :: "string option"

section \<open>The document store\<close>

text \<open>
  \<open>database.py\<close> is not among the sources. The store holds, for every collection, its
  documents in the order in which a query returns them, the next identifier to hand out,
  and whether the store can be reached.
\<close>

record store =
  collections :: "string \<Rightarrow> doc list"
  next_id :: object_id
  available :: bool

text \<open>
  Modelled from the spec: \<open>database.create_document\<close> is missing. The spec gives
  \<open>insert(collection, record) -> id\<close>, says that each record carries a store-generated
  identifier and a creation timestamp, and that persistence calls fail when the store is
  unavailable. The identifier is returned in its string form (the handlers put it into
  JSON responses as it is); the stored record carries the identifier object under
  \<open>_id\<close> (the handlers that read documents convert it with \<open>str\<close>) and the time of
  insertion under \<open>created_at\<close> (the key the handlers sort by).
\<close>

definition create_document :: "datetime \<Rightarrow> string \<Rightarrow> doc \<Rightarrow> store \<Rightarrow> (error + pyval) \<times> store" where
  "create_document created collection_name data st =
     (if \<not> available st then (Inl StoreUnavailable, st)
      else
        (let i = next_id st;
             record = dict_set ''created_at'' (PDatetime created)
                        (dict_set ''_id'' (PObjectId i) data)
         in (Inr (PStrOf (PObjectId i)),
             st\<lparr>collections := (collections st)
                    (collection_name := collections st collection_name @ [record]),
                next_id := Suc i\<rparr>)))"

text \<open>
  Modelled from the spec: \<open>database.get_documents\<close> is missing. The spec gives
  \<open>query(collection, filter, limit) -> list of records\<close> with no ordering guarantee: the
  documents that agree with the filter on every key of it, in the store's order, at most
  \<open>limit\<close> of them. Each call returns fresh dictionaries.
\<close>

definition matches :: "doc \<Rightarrow> doc \<Rightarrow> bool" where
  "matches filter_dict d = list_all (\<lambda>(k, v). dict_get d k = Some v) filter_dict"

definition get_documents :: "string \<Rightarrow> doc \<Rightarrow> nat option \<Rightarrow> store \<Rightarrow> error + doc list" where
  "get_documents collection_name filter_dict limit st =
     (if \<not> available st then Inl StoreUnavailable
      else
        (let found = filter (matches filter_dict) (collections st collection_name)
         in Inr (case limit of None \<Rightarrow> found | Some n \<Rightarrow> take n found)))"

section \<open>Handlers (src/main.py)\<close>

text \<open>
  The state of the application: the store, the registry \<open>manager.active\<close>, and the texts
  that have been sent to sockets, oldest first. A handler returns its response or the
  error it raises, and the state it leaves. Clock readings (\<open>now\<close> for
  \<open>datetime.now(timezone.utc)\<close> in the handler, \<open>created\<close> for the store's timestamp) and the
  set of sockets that are alive are arguments.
\<close>

record app =
  db :: store
  manager :: registry
  outbox :: "(websocket \<times> json_text) list"

text \<open>\<open>mock_login\<close> (lines 72 to 86).\<close>

definition providers :: "string list" where
  "providers = [''google'', ''microsoft'', ''apple'', ''mock'']"

definition mock_login :: "lib \<Rightarrow> datetime \<Rightarrow> mock_auth_request \<Rightarrow> app \<Rightarrow> (error + pyval) \<times> app" where
  "mock_login l created payload st =
     (let provider = lower (provider payload)
      in if provider \<notin> set providers
         then (Inl (HTTPException 400 ''Unsupported provider''), st)
         else
           (case User l
                   (Some (or_default (name payload) ''SafeShe User''))
                   (Some (or_default (email payload) (''user-'' @ provider @ ''@safeshe.app'')))
                   (Some provider)
                   (Some (or_default (token payload) ''mock-token''))
                   (photo_url payload) of
              Inl e \<Rightarrow> (Inl e, st)
            | Inr user_doc \<Rightarrow>
                (case create_document created ''user'' (user_dump user_doc) (db st) of
                   (Inl e, db') \<Rightarrow> (Inl e, st\<lparr>db := db'\<rparr>)
                 | (Inr user_id, db') \<Rightarrow>
                     (Inr (PDict [(''user_id'', user_id), (''provider'', PStr provider)]),
                      st\<lparr>db := db'\<rparr>))))"

text \<open>\<open>ws_broadcast\<close> (lines 204, 205).\<close>

definition ws_broadcast :: "(websocket \<Rightarrow> bool) \<Rightarrow> user_id \<Rightarrow> pyval \<Rightarrow> app \<Rightarrow> (error + unit) \<times> app" where
  "ws_broadcast alive u message st =
     (case broadcast alive u message (manager st) of
        Inl e \<Rightarrow> (Inl e, st)
      | Inr (reg', sent) \<Rightarrow> (Inr (), st\<lparr>manager := reg', outbox := outbox st @ sent\<rparr>))"

text \<open>
  \<open>location_update\<close> (lines 105 to 116). \<open>track_message\<close> is the dictionary passed to
  \<open>ws_broadcast\<close>; \<open>post_location_update\<close> is the route: the request layer validates the
  body into a \<open>Trackpoint\<close> before the handler runs.
\<close>

definition track_message :: "trackpoint \<Rightarrow> pyval \<Rightarrow> datetime \<Rightarrow> pyval" where
  "track_message point new_id server_ts =
     PDict [(''type'', PStr ''track''),
            (''data'', PDict
               (dict_set ''server_ts'' (PIso server_ts)
                 (dict_set ''_id'' new_id
                   (filter (\<lambda>(k, v). v \<noteq> PNone) (trackpoint_dump point)))))]"

definition location_update :: "datetime \<Rightarrow> datetime \<Rightarrow> (websocket \<Rightarrow> bool) \<Rightarrow> trackpoint \<Rightarrow> app
    \<Rightarrow> (error + pyval) \<times> app" where
  "location_update now created alive point st =
     (let data = dict_set ''server_ts'' (PDatetime now) (trackpoint_dump point)
      in case create_document created ''trackpoint'' data (db st) of
           (Inl e, db') \<Rightarrow> (Inl e, st\<lparr>db := db'\<rparr>)
         | (Inr new_id, db') \<Rightarrow>
             (case ws_broadcast alive (tp_user_id point) (track_message point new_id now)
                     (st\<lparr>db := db'\<rparr>) of
                (Inl e, st') \<Rightarrow> (Inl e, st')
              | (Inr u, st') \<Rightarrow> (Inr (PDict [(''trackpoint_id'', new_id)]), st')))"

definition post_location_update :: "datetime \<Rightarrow> datetime \<Rightarrow> (websocket \<Rightarrow> bool) \<Rightarrow> trackpoint \<Rightarrow> app
    \<Rightarrow> (error + pyval) \<times> app" where
  "post_location_update now created alive body st =
     (case validate_trackpoint body of
        Inl e \<Rightarrow> (Inl e, st)
      | Inr point \<Rightarrow> location_update now created alive point st)"

text \<open>
  \<open>location_last\<close> (lines 119 to 127). \<open>created_key\<close> is the sort key
  \<open>x.get("created_at", datetime.min)\<close>; \<open>created_at\<close>, where present, is a datetime.
  \<open>serialize_id\<close> is \<open>latest["_id"] = str(latest["_id"])\<close>, which raises \<open>KeyError\<close> on a
  document without \<open>_id\<close>. An empty dictionary is falsy and skips that statement.
\<close>

definition created_key :: "doc \<Rightarrow> datetime" where
  "created_key x = (case dict_get x ''created_at'' of Some (PDatetime t) \<Rightarrow> t | _ \<Rightarrow> 0)"

definition serialize_id :: "doc \<Rightarrow> error + doc" where
  "serialize_id latest =
     (case dict_get latest ''_id'' of
        None \<Rightarrow> Inl KeyError
      | Some i \<Rightarrow> Inr (dict_set ''_id'' (PStrOf i) latest))"


text \<open>\<open>create_incident\<close> (lines 131 to 134) and its route.\<close>

definition create_incident :: "datetime \<Rightarrow> incident \<Rightarrow> app \<Rightarrow> (error + pyval) \<times> app" where
  "create_incident created inc st =
     (case create_document created ''incident'' (incident_dump inc) (db st) of
        (Inl e, db') \<Rightarrow> (Inl e, st\<lparr>db := db'\<rparr>)
      | (Inr iid, db') \<Rightarrow> (Inr (PDict [(''incident_id'', iid)]), st\<lparr>db := db'\<rparr>))"

definition post_incidents :: "lib \<Rightarrow> datetime \<Rightarrow> incident \<Rightarrow> app \<Rightarrow> (error + pyval) \<times> app" where
  "post_incidents l created body st =
     (case validate_incident l body of
        Inl e \<Rightarrow> (Inl e, st)
      | Inr inc \<Rightarrow> create_incident created inc st)"

text \<open>
  \<open>websocket_endpoint\<close> (lines 208 to 227). \<open>last_message\<close> is the text built inside the inner
  \<open>try\<close>, \<open>send_last\<close> the inner \<open>try\<close> with its \<open>except Exception: pass\<close>. The loop
  \<open>while True: await websocket.receive_text()\<close> consumes the events the socket has
  delivered so far: a text is ignored, a close raises \<open>WebSocketDisconnect\<close> and the handler
  removes the socket from the registry; with no event left the handler is still waiting.
\<close>

definition last_message :: "user_id \<Rightarrow> store \<Rightarrow> error + json_text option" where
  "last_message u st =
     (case get_documents ''trackpoint'' [(''user_id'', PStr u)] (Some 1) st of
        Inl e \<Rightarrow> Inl e
      | Inr found \<Rightarrow>
          (case sort_reverse created_key found of
             [] \<Rightarrow> Inr None
           | latest # rest \<Rightarrow>
               (case serialize_id latest of
                  Inl e \<Rightarrow> Inl e
                | Inr latest' \<Rightarrow>
                    (case json_dumps_default_str
                            (PDict [(''type'', PStr ''last''), (''data'', PDict latest')]) of
                       Inl e \<Rightarrow> Inl e
                     | Inr txt \<Rightarrow> Inr (Some txt)))))"

definition send_last :: "(websocket \<Rightarrow> bool) \<Rightarrow> user_id \<Rightarrow> websocket \<Rightarrow> app \<Rightarrow> app" where
  "send_last alive u ws st =
     (case last_message u (db st) of
        Inl e \<Rightarrow> st
      | Inr None \<Rightarrow> st
      | Inr (Some txt) \<Rightarrow> if alive ws then st\<lparr>outbox := outbox st @ [(ws, txt)]\<rparr> else st)"

datatype event = Received string | Closed

fun receive_loop :: "user_id \<Rightarrow> websocket \<Rightarrow> event list \<Rightarrow> app \<Rightarrow> app" where
  "receive_loop u ws [] st = st"
| "receive_loop u ws (Received text # events) st = receive_loop u ws events st"
| "receive_loop u ws (Closed # events) st = st\<lparr>manager := disconnect u ws (manager st)\<rparr>"

definition websocket_endpoint :: "bool \<Rightarrow> (websocket \<Rightarrow> bool) \<Rightarrow> event list \<Rightarrow> websocket \<Rightarrow> user_id
    \<Rightarrow> app \<Rightarrow> (error + unit) \<times> app" where
  "websocket_endpoint accept_ok alive events ws u st =
     (case connect accept_ok u ws (manager st) of
        Inl e \<Rightarrow> (Inl e, st)
      | Inr reg' \<Rightarrow>
          (Inr (), receive_loop u ws events (send_last alive u ws (st\<lparr>manager := reg'\<rparr>))))"


section \<open>Concrete states and requests\<close>

text \<open>
  The state at start-up, a library that accepts every e-mail address and URL, and the
  requests used as examples below.
\<close>

definition initial :: app where
  "initial = \<lparr>db = \<lparr>collections = (\<lambda>c. []), next_id = 0, available = True\<rparr>,
              manager = Map.empty, outbox = []\<rparr>"

definition no_checks :: lib where
  "no_checks = \<lparr>email_str = Some, http_url = Some\<rparr>"

definition far_north :: trackpoint where
  "far_north = \<lparr>tp_user_id = ''u1'', tp_lat = 90.5, tp_lng = 77.5, tp_accuracy = None,
      tp_speed = None, tp_heading = None, tp_battery = None, tp_ts = None\<rparr>"

definition far_east :: incident where
  "far_east = \<lparr>inc_user_id = ''u1'', inc_type = ''sos'', inc_description = None,
      inc_lat = Some 12.9, inc_lng = Some 180.25, inc_media_urls = [], inc_severity = Some 3\<rparr>"

definition slack_request :: mock_auth_request where
  "slack_request = \<lparr>provider = ''slack'', token = None, name = None, email = None,
      photo_url = None\<rparr>"

definition google_request :: mock_auth_request where
  "google_request = \<lparr>provider = ''Google'', token = None, name = None, email = None,
      photo_url = None\<rparr>"

text \<open>The Trackpoint of the spec's scenario, the same with a client timestamp, a later one.\<close>

definition point_u1 :: trackpoint where
  "point_u1 = \<lparr>tp_user_id = ''u1'', tp_lat = 12.9, tp_lng = 77.5, tp_accuracy = None,
      tp_speed = None, tp_heading = None, tp_battery = None, tp_ts = None\<rparr>"

definition point_u1_ts :: trackpoint where
  "point_u1_ts = point_u1\<lparr>tp_ts := Some 5\<rparr>"

definition second_point_u1 :: trackpoint where
  "second_point_u1 = point_u1\<lparr>tp_lat := 13.1\<rparr>"

text \<open>One viewer, socket 7, watches the channel of u1.\<close>

definition one_viewer :: app where
  "one_viewer = initial\<lparr>manager := [''u1'' \<mapsto> [7]]\<rparr>"

text \<open>The state after two accepted submissions for u1, the second one later.\<close>

definition two_points :: app where
  "two_points = snd (post_location_update 20 21 (\<lambda>ws. True) second_point_u1
                  (snd (post_location_update 10 11 (\<lambda>ws. True) point_u1 initial)))"




section \<open>Properties of the connection registry\<close>

lemma active_get_disconnect:
  "active_get (disconnect u ws reg) u = remove1 ws (active_get reg u)"
  by (auto simp: active_get_def disconnect_def Let_def remove1_idem split: option.splits)

lemma disconnect_other: "v \<noteq> u \<Longrightarrow> disconnect u ws reg v = reg v"
  by (auto simp: disconnect_def Let_def split: option.splits)

lemma disconnect_not_empty: "disconnect u ws reg u \<noteq> Some []"
  by (auto simp: disconnect_def Let_def split: option.splits)

lemma entry_iff_active_get:
  "reg u \<noteq> Some [] \<Longrightarrow> reg u = (if active_get reg u = [] then None else Some (active_get reg u))"
  by (auto simp: active_get_def split: option.splits)

lemma registry_ok_disconnect: "registry_ok reg \<Longrightarrow> registry_ok (disconnect u ws reg)"
  unfolding registry_ok_def
  by (metis disconnect_other disconnect_not_empty)

lemma disconnect_absent:
  "reg u \<noteq> Some [] \<Longrightarrow> ws \<notin> set (active_get reg u) \<Longrightarrow> disconnect u ws reg = reg"
  by (auto simp: active_get_def disconnect_def Let_def split: option.splits)

lemma active_get_fold_disconnect:
  "active_get (fold (disconnect u) ds reg) u = fold remove1 ds (active_get reg u)"
  by (induction ds arbitrary: reg) (simp_all add: active_get_disconnect)

lemma fold_disconnect_other: "v \<noteq> u \<Longrightarrow> fold (disconnect u) ds reg v = reg v"
  by (induction ds arbitrary: reg) (simp_all add: disconnect_other)

lemma fold_disconnect_not_empty:
  "reg u \<noteq> Some [] \<Longrightarrow> fold (disconnect u) ds reg u \<noteq> Some []"
  by (induction ds arbitrary: reg) (simp_all add: disconnect_not_empty)

lemma registry_ok_fold_disconnect:
  "registry_ok reg \<Longrightarrow> registry_ok (fold (disconnect u) ds reg)"
  by (induction ds arbitrary: reg) (simp_all add: registry_ok_disconnect)

lemma fold_remove1_filter:
  "\<forall>y \<in> set ys. \<not> P y \<Longrightarrow> fold remove1 (filter P xs) (ys @ xs) = ys @ filter (\<lambda>x. \<not> P x) xs"
proof (induction xs arbitrary: ys)
  case Nil
  then show ?case by simp
next
  case (Cons x xs)
  show ?case
  proof (cases "P x")
    case True
    with Cons.prems have "x \<notin> set ys" by auto
    then have "remove1 x (ys @ x # xs) = ys @ xs" by (simp add: remove1_append)
    with True Cons.IH [OF Cons.prems] show ?thesis by simp
  next
    case False
    with Cons.prems have "\<forall>y \<in> set (ys @ [x]). \<not> P y" by auto
    from Cons.IH [OF this] False show ?thesis by simp
  qed
qed

lemma try_send_cases:
  "try_send alive ws message = (if send_ok alive message ws then Inr (Json message) else
     Inl (if json_serializable message then SendFailed else TypeError))"
  by (simp add: try_send_def json_dumps_def send_ok_def)

lemma send_loop_eq:
  "send_loop alive message conns =
     (map (\<lambda>ws. (ws, Json message)) (filter (send_ok alive message) conns),
      filter (\<lambda>ws. \<not> send_ok alive message ws) conns)"
  by (induction conns) (simp_all add: try_send_cases)

lemma broadcast_eq:
  "broadcast alive u message reg =
     Inr (fold (disconnect u) (filter (\<lambda>ws. \<not> send_ok alive message ws) (active_get reg u)) reg,
          map (\<lambda>ws. (ws, Json message)) (filter (send_ok alive message) (active_get reg u)))"
  by (simp add: broadcast_def send_loop_eq)

lemma active_get_broadcast:
  "broadcast alive u message reg = Inr (reg', sent) \<Longrightarrow>
     active_get reg' u = filter (send_ok alive message) (active_get reg u)"
  using fold_remove1_filter [of "[]" "\<lambda>ws. \<not> send_ok alive message ws" "active_get reg u"]
  by (auto simp: broadcast_eq active_get_fold_disconnect)

lemma registry_ok_connect:
  "registry_ok reg \<Longrightarrow> connect ok u ws reg = Inr reg' \<Longrightarrow> registry_ok reg'"
  by (auto simp: registry_ok_def connect_def split: if_splits)

lemma registry_ok_step: "registry_ok reg \<Longrightarrow> registry_ok (step x reg)"
proof (cases x)
  case (Connect u ws ok)
  assume "registry_ok reg"
  then show ?thesis using Connect registry_ok_connect [of reg ok u ws]
    by (auto split: sum.splits)
next
  case (Disconnect u ws)
  assume "registry_ok reg"
  then show ?thesis using Disconnect by (simp add: registry_ok_disconnect)
next
  case (Broadcast u m alive)
  assume "registry_ok reg"
  then show ?thesis using Broadcast
    by (simp add: broadcast_eq registry_ok_fold_disconnect)
qed

lemma registry_ok_run: "registry_ok reg \<Longrightarrow> registry_ok (run ops reg)"
  unfolding run_def by (induction ops arbitrary: reg) (simp_all add: registry_ok_step)

lemma run_append: "run (xs @ ys) reg = run ys (run xs reg)"
  by (simp add: run_def)

lemma run_Cons: "run (x # xs) reg = run xs (step x reg)"
  by (simp add: run_def)

lemma run_Nil: "run [] reg = reg"
  by (simp add: run_def)

lemma active_get_step_Connect:
  "active_get (step (Connect v ws ok) reg) u =
     (if ok \<and> v = u then active_get reg u @ [ws] else active_get reg u)"
  by (simp add: connect_def active_get_def)

lemma active_get_step:
  "active_get (step x reg) v =
     (case x of
        Connect u ws ok \<Rightarrow> if ok \<and> u = v then active_get reg v @ [ws] else active_get reg v
      | Disconnect u ws \<Rightarrow> if u = v then remove1 ws (active_get reg v) else active_get reg v
      | Broadcast u message alive \<Rightarrow>
          if u = v then filter (send_ok alive message) (active_get reg v) else active_get reg v)"
proof (cases x)
  case (Connect u ws ok)
  then show ?thesis by (simp add: connect_def active_get_def)
next
  case (Disconnect u ws)
  then show ?thesis
    by (auto simp: active_get_disconnect) (simp add: active_get_def disconnect_other)
next
  case (Broadcast u message alive)
  show ?thesis
  proof (cases "u = v")
    case True
    with Broadcast show ?thesis
      using active_get_broadcast
          [OF broadcast_eq [where alive = alive and u = u and message = message and reg = reg]]
      by (simp add: broadcast_eq)
  next
    case False
    with Broadcast show ?thesis
      by (simp add: broadcast_eq active_get_def fold_disconnect_other)
  qed
qed

lemma registered_once_step:
  assumes "registered_once s"
  shows "registered_once (serve_step x s)"
proof -
  obtain accepted reg where s: "s = (accepted, reg)" by (cases s)
  from assms have d: "\<And>u. distinct (active_get reg u)"
    and a: "\<And>u. set (active_get reg u) \<subseteq> accepted"
    by (auto simp: registered_once_def s)
  show ?thesis
  proof (cases x)
    case (Connect u ws ok)
    show ?thesis
    proof (cases "accept ok accepted ws")
      case True
      then have "ws \<notin> accepted" by (simp add: accept_def)
      with a have "\<And>v. ws \<notin> set (active_get reg v)" by blast
      with d a True show ?thesis
        unfolding registered_once_def s Connect
        by (auto simp: active_get_step simp del: step.simps)
    next
      case False
      with d a show ?thesis
        unfolding registered_once_def s Connect
        by (auto simp: active_get_step simp del: step.simps)
    qed
  next
    case (Disconnect u ws)
    show ?thesis
      unfolding registered_once_def s Disconnect
    proof (intro allI)
      fix v
      have "set (remove1 ws (active_get reg v)) \<subseteq> accepted"
        using a [of v] set_remove1_subset [of ws "active_get reg v"] by blast
      with d [of v] a [of v]
      show "distinct (active_get (snd (serve_step (Disconnect u ws) (accepted, reg))) v) \<and>
         set (active_get (snd (serve_step (Disconnect u ws) (accepted, reg))) v)
         \<subseteq> fst (serve_step (Disconnect u ws) (accepted, reg))"
        by (simp add: active_get_step del: step.simps)
    qed
  next
    case (Broadcast u message alive)
    show ?thesis
      unfolding registered_once_def s Broadcast
    proof (intro allI)
      fix v
      from d [of v] a [of v]
      show "distinct (active_get (snd (serve_step (Broadcast u message alive) (accepted, reg))) v) \<and>
         set (active_get (snd (serve_step (Broadcast u message alive) (accepted, reg))) v)
         \<subseteq> fst (serve_step (Broadcast u message alive) (accepted, reg))"
        by (auto simp: active_get_step simp del: step.simps)
    qed
  qed
qed

lemma registered_once_serve: "registered_once s \<Longrightarrow> registered_once (serve ops s)"
  unfolding serve_def by (induction ops arbitrary: s) (simp_all add: registered_once_step)

lemma registered_once_start: "registered_once ({}, Map.empty)"
  by (simp add: registered_once_def active_get_def)

lemma distinct_count_list: "distinct xs \<Longrightarrow> count_list xs x \<le> 1"
  by (induction xs) (auto simp: count_list_0_iff)

text \<open>
  Claim C2. After any sequence of registry operations from start-up, and so after any
  sequence of \<open>connect\<close> calls, a connection occurs at most once in the list of a user; and
  \<open>connect\<close> on a socket that has been accepted before leaves the registry as it is, so a
  viewer connected twice is registered once.
\<close>

theorem connect_registers_once:
  "count_list (active_get (snd (serve ops ({}, Map.empty))) u) ws \<le> 1
   \<and> (ws \<in> fst (serve ops ({}, Map.empty)) \<longrightarrow>
        serve_step (Connect u ws handshake_ok) (serve ops ({}, Map.empty))
          = serve ops ({}, Map.empty))"
proof (intro conjI impI)
  have "registered_once (serve ops ({}, Map.empty))"
    using registered_once_start by (rule registered_once_serve)
  then have "distinct (active_get (snd (serve ops ({}, Map.empty))) u)"
    by (simp add: registered_once_def)
  then show "count_list (active_get (snd (serve ops ({}, Map.empty))) u) ws \<le> 1"
    by (rule distinct_count_list)
next
  assume "ws \<in> fst (serve ops ({}, Map.empty))"
  then show "serve_step (Connect u ws handshake_ok) (serve ops ({}, Map.empty))
          = serve ops ({}, Map.empty)"
    by (cases "serve ops ({}, Map.empty)") (simp add: accept_def connect_def)
qed

theorem connect_registers_once_witness:
  "7 \<in> fst (serve [Connect ''u1'' 7 True] ({}, Map.empty))
   \<and> serve [Connect ''u1'' 7 True, Connect ''u1'' 7 True] ({}, Map.empty)
       = serve [Connect ''u1'' 7 True] ({}, Map.empty)
   \<and> active_get (snd (serve [Connect ''u1'' 7 True, Connect ''u1'' 7 True] ({}, Map.empty))) ''u1''
       = [7]
   \<and> count_list (active_get (snd (serve [Connect ''u1'' 7 True, Connect ''u1'' 7 True]
         ({}, Map.empty))) ''u1'') 7 \<le> 1"
proof -
  have h: "7 \<in> fst (serve [Connect ''u1'' 7 True] ({}, Map.empty))"
    by (simp add: serve_def accept_def)
  have e: "serve [Connect ''u1'' 7 True, Connect ''u1'' 7 True] ({}, Map.empty)
      = serve_step (Connect ''u1'' 7 True) (serve [Connect ''u1'' 7 True] ({}, Map.empty))"
    by (simp add: serve_def)
  have r: "active_get (snd (serve [Connect ''u1'' 7 True] ({}, Map.empty))) ''u1'' = [7]"
    by (simp add: serve_def accept_def connect_def active_get_def)
  from connect_registers_once [of "[Connect ''u1'' 7 True]" "''u1''" 7 True] h
  have c: "serve_step (Connect ''u1'' 7 True) (serve [Connect ''u1'' 7 True] ({}, Map.empty))
      = serve [Connect ''u1'' 7 True] ({}, Map.empty)"
    by blast
  from connect_registers_once
    [of "[Connect ''u1'' 7 True, Connect ''u1'' 7 True]" "''u1''" 7 True]
  have n: "count_list (active_get (snd (serve [Connect ''u1'' 7 True, Connect ''u1'' 7 True]
         ({}, Map.empty))) ''u1'') 7 \<le> 1"
    by blast
  from h e c r n show ?thesis by simp
qed

lemma active_get_connect_all:
  "active_get (run (map (\<lambda>c. Connect u c True) cs) reg) u = active_get reg u @ cs"
  by (induction cs arbitrary: reg)
    (simp_all add: run_Nil run_Cons active_get_step_Connect del: step.simps)

lemma connect_all_not_empty:
  "reg u \<noteq> Some [] \<Longrightarrow> run (map (\<lambda>c. Connect u c True) cs) reg u \<noteq> Some []"
  by (induction cs arbitrary: reg) (simp_all add: run_Nil run_Cons connect_def)

lemma run_disconnects: "run (map (Disconnect u) ds) reg = fold (disconnect u) ds reg"
  by (induction ds arbitrary: reg) (simp_all add: run_Nil run_Cons)

lemma mset_fold_remove1: "mset (fold remove1 ds xs) = mset xs - mset ds"
  by (induction ds arbitrary: xs) simp_all

text \<open>
  Claim C3. In a registry without empty entries: when a user without an entry has N
  connections opened and then each of them closed (in any order), the user has no entry
  afterwards; removing the only connection of a user removes the entry; \<open>disconnect\<close> of
  a connection that is not registered for the user changes nothing.
\<close>

theorem closed_connections_leave_no_entry:
  assumes "registry_ok reg"
  shows "(reg u = None \<and> mset ds = mset cs \<longrightarrow>
            run (map (\<lambda>c. Connect u c True) cs @ map (Disconnect u) ds) reg u = None)
       \<and> (active_get reg u = [c] \<longrightarrow> disconnect u c reg u = None)
       \<and> (c \<notin> set (active_get reg u) \<longrightarrow> disconnect u c reg = reg)"
proof (intro conjI impI)
  assume a: "reg u = None \<and> mset ds = mset cs"
  let ?reg1 = "run (map (\<lambda>c. Connect u c True) cs) reg"
  let ?reg2 = "fold (disconnect u) ds ?reg1"
  from a have "?reg1 u \<noteq> Some []" by (simp add: connect_all_not_empty)
  then have ne: "?reg2 u \<noteq> Some []" by (rule fold_disconnect_not_empty)
  from a have "active_get reg u = []" by (simp add: active_get_def)
  then have "active_get ?reg1 u = cs" by (simp add: active_get_connect_all)
  then have "mset (active_get ?reg2 u) = {#}"
    using a by (simp add: active_get_fold_disconnect mset_fold_remove1)
  then have "active_get ?reg2 u = []" by simp
  with entry_iff_active_get [of ?reg2 u] ne have "?reg2 u = None" by simp
  then show "run (map (\<lambda>c. Connect u c True) cs @ map (Disconnect u) ds) reg u = None"
    by (simp add: run_append run_disconnects)
next
  assume "active_get reg u = [c]"
  then show "disconnect u c reg u = None"
    by (auto simp: active_get_def disconnect_def split: option.splits)
next
  assume "c \<notin> set (active_get reg u)"
  moreover from assms have "reg u \<noteq> Some []" by (simp add: registry_ok_def)
  ultimately show "disconnect u c reg = reg" by (simp add: disconnect_absent)
qed

theorem closed_connections_leave_no_entry_witness:
  "registry_ok [''u2'' \<mapsto> [9]]
   \<and> [''u2'' \<mapsto> [9::nat]] ''u1'' = None \<and> mset [2, 3, 1] = mset [1, 2, 3::nat]
   \<and> run (map (\<lambda>c. Connect ''u1'' c True) [1, 2, 3] @ map (Disconnect ''u1'') [2, 3, 1])
        [''u2'' \<mapsto> [9]] ''u1'' = None
   \<and> active_get [''u2'' \<mapsto> [9]] ''u2'' = [9] \<and> disconnect ''u2'' 9 [''u2'' \<mapsto> [9]] ''u2'' = None
   \<and> 4 \<notin> set (active_get [''u2'' \<mapsto> [9]] ''u2'')
   \<and> disconnect ''u2'' 4 [''u2'' \<mapsto> [9]] = [''u2'' \<mapsto> [9]]"
proof -
  have ok: "registry_ok [''u2'' \<mapsto> [9]]" by (simp add: registry_ok_def)
  have h1: "[''u2'' \<mapsto> [9::nat]] ''u1'' = None \<and> mset [2, 3, 1] = mset [1, 2, 3::nat]" by simp
  have h2: "active_get [''u2'' \<mapsto> [9]] ''u2'' = [9]" by (simp add: active_get_def)
  have h3: "4 \<notin> set (active_get [''u2'' \<mapsto> [9]] ''u2'')" by (simp add: active_get_def)
  from closed_connections_leave_no_entry [OF ok, of "''u1''" "[2, 3, 1]" "[1, 2, 3]" 9] h1
  have c1: "run (map (\<lambda>c. Connect ''u1'' c True) [1, 2, 3] @ map (Disconnect ''u1'') [2, 3, 1])
        [''u2'' \<mapsto> [9]] ''u1'' = None" by blast
  from closed_connections_leave_no_entry [OF ok, of "''u2''" "[]" "[]" 9] h2
  have c2: "disconnect ''u2'' 9 [''u2'' \<mapsto> [9]] ''u2'' = None" by blast
  from closed_connections_leave_no_entry [OF ok, of "''u2''" "[]" "[]" 4] h3
  have c3: "disconnect ''u2'' 4 [''u2'' \<mapsto> [9]] = [''u2'' \<mapsto> [9]]" by blast
  from ok h1 h2 h3 c1 c2 c3 show ?thesis by blast
qed

text \<open>
  Claim C9. The empty registry has no empty entry, every run of \<open>connect\<close>,
  \<open>disconnect\<close> and \<open>broadcast\<close> operations keeps that property, and so every entry of a
  registry reached from the empty one holds at least one connection.
\<close>

theorem registry_entries_nonempty:
  "registry_ok Map.empty
   \<and> (registry_ok reg \<longrightarrow> registry_ok (run ops reg))
   \<and> (run ops Map.empty u = Some conns \<longrightarrow> conns \<noteq> [])"
proof (intro conjI impI)
  show e: "registry_ok Map.empty" by (simp add: registry_ok_def)
  show "registry_ok (run ops reg)" if "registry_ok reg" using that by (rule registry_ok_run)
  show "conns \<noteq> []" if "run ops Map.empty u = Some conns"
    using registry_ok_run [OF e, of ops] that by (auto simp: registry_ok_def)
qed

theorem registry_entries_nonempty_witness:
  "registry_ok Map.empty
   \<and> registry_ok (run [Connect ''u1'' 1 True, Connect ''u1'' 2 True,
          Broadcast ''u1'' (PStr ''hi'') (\<lambda>ws. ws = 1), Disconnect ''u1'' 1] Map.empty)
   \<and> run [Connect ''u1'' 1 True, Connect ''u1'' 2 True,
          Broadcast ''u1'' (PStr ''hi'') (\<lambda>ws. ws = 1)] Map.empty ''u1'' = Some [1]
   \<and> [1::nat] \<noteq> []
   \<and> run [Connect ''u1'' 1 True, Connect ''u1'' 2 True,
          Broadcast ''u1'' (PStr ''hi'') (\<lambda>ws. ws = 1), Disconnect ''u1'' 1] Map.empty ''u1'' = None"
proof -
  have r1: "run [Connect ''u1'' 1 True, Connect ''u1'' 2 True,
          Broadcast ''u1'' (PStr ''hi'') (\<lambda>ws. ws = 1)] Map.empty ''u1'' = Some [1]"
    by (simp add: run_def connect_def active_get_def broadcast_def try_send_def json_dumps_def
        disconnect_def)
  have r2: "run [Connect ''u1'' 1 True, Connect ''u1'' 2 True,
          Broadcast ''u1'' (PStr ''hi'') (\<lambda>ws. ws = 1), Disconnect ''u1'' 1] Map.empty ''u1'' = None"
    by (simp add: run_def connect_def active_get_def broadcast_def try_send_def json_dumps_def
        disconnect_def)
  from registry_entries_nonempty [of Map.empty "[Connect ''u1'' 1 True, Connect ''u1'' 2 True,
          Broadcast ''u1'' (PStr ''hi'') (\<lambda>ws. ws = 1), Disconnect ''u1'' 1]" "''u1''" "[1]"]
    registry_entries_nonempty [of Map.empty "[Connect ''u1'' 1 True, Connect ''u1'' 2 True,
          Broadcast ''u1'' (PStr ''hi'') (\<lambda>ws. ws = 1)]" "''u1''" "[1]"] r1 r2
  show ?thesis by blast
qed

text \<open>
  Claim C1. When the list of a user holds a connection to which the send succeeds and
  one to which it raises, \<open>broadcast\<close> returns normally, the text has been delivered to
  the first, nothing to the second, the second is no longer registered, the first still
  is, and the entries of other users are untouched.
\<close>

theorem broadcast_best_effort:
  assumes "healthy \<in> set (active_get reg u)"
    and "dead \<in> set (active_get reg u)"
    and "try_send alive healthy message = Inr txt"
    and "try_send alive dead message = Inl e"
  shows "\<exists>reg' sent. broadcast alive u message reg = Inr (reg', sent)
           \<and> (healthy, txt) \<in> set sent \<and> txt = Json message
           \<and> dead \<notin> fst ` set sent
           \<and> dead \<notin> set (active_get reg' u)
           \<and> healthy \<in> set (active_get reg' u)
           \<and> (\<forall>v. v \<noteq> u \<longrightarrow> reg' v = reg v)"
proof -
  let ?ok = "send_ok alive message"
  let ?reg' = "fold (disconnect u) (filter (\<lambda>ws. \<not> ?ok ws) (active_get reg u)) reg"
  let ?sent = "map (\<lambda>ws. (ws, Json message)) (filter ?ok (active_get reg u))"
  have b: "broadcast alive u message reg = Inr (?reg', ?sent)" by (rule broadcast_eq)
  from assms(3) have h: "?ok healthy" and t: "txt = Json message"
    by (auto simp: try_send_cases split: if_splits)
  from assms(4) have d: "\<not> ?ok dead"
    by (auto simp: try_send_cases split: if_splits)
  have a: "active_get ?reg' u = filter ?ok (active_get reg u)"
    using b by (rule active_get_broadcast)
  have "(healthy, txt) \<in> set ?sent" using h t assms(1) by auto
  moreover have "dead \<notin> fst ` set ?sent" using d by auto
  moreover have "dead \<notin> set (active_get ?reg' u)" using d a by simp
  moreover have "healthy \<in> set (active_get ?reg' u)" using h a assms(1) by simp
  moreover have "\<forall>v. v \<noteq> u \<longrightarrow> ?reg' v = reg v" by (simp add: fold_disconnect_other)
  ultimately show ?thesis using b t by blast
qed

theorem broadcast_best_effort_witness:
  "1 \<in> set (active_get [''u1'' \<mapsto> [2, 1]] ''u1'')
   \<and> 2 \<in> set (active_get [''u1'' \<mapsto> [2, 1]] ''u1'')
   \<and> try_send (\<lambda>ws. ws = 1) 1 (PStr ''hi'') = Inr (Json (PStr ''hi''))
   \<and> try_send (\<lambda>ws. ws = 1) 2 (PStr ''hi'') = Inl SendFailed
   \<and> (\<exists>reg' sent. broadcast (\<lambda>ws. ws = 1) ''u1'' (PStr ''hi'') [''u1'' \<mapsto> [2, 1]] = Inr (reg', sent)
         \<and> (1, Json (PStr ''hi'')) \<in> set sent
         \<and> 2 \<notin> set (active_get reg' ''u1'')
         \<and> 1 \<in> set (active_get reg' ''u1''))"
proof -
  have h1: "1 \<in> set (active_get [''u1'' \<mapsto> [2, 1]] ''u1'')" by (simp add: active_get_def)
  have h2: "2 \<in> set (active_get [''u1'' \<mapsto> [2, 1]] ''u1'')" by (simp add: active_get_def)
  have h3: "try_send (\<lambda>ws. ws = 1) 1 (PStr ''hi'') = Inr (Json (PStr ''hi''))"
    by (simp add: try_send_def json_dumps_def)
  have h4: "try_send (\<lambda>ws. ws = 1) 2 (PStr ''hi'') = Inl SendFailed"
    by (simp add: try_send_def json_dumps_def)
  from broadcast_best_effort [OF h1 h2 h3 h4] h1 h2 h3 h4 show ?thesis by blast
qed

section \<open>Properties of the handlers\<close>

lemma validate_trackpoint_out_of_range:
  "tp_lat body < - 90 \<or> 90 < tp_lat body \<or> tp_lng body < - 180 \<or> 180 < tp_lng body
     \<Longrightarrow> validate_trackpoint body = Inl ValidationError"
  by (auto simp: validate_trackpoint_def)

lemma validate_incident_out_of_range:
  "(\<exists>x. inc_lat body = Some x \<and> (x < - 90 \<or> 90 < x))
     \<or> (\<exists>x. inc_lng body = Some x \<and> (x < - 180 \<or> 180 < x))
     \<Longrightarrow> validate_incident l body = Inl ValidationError"
  by (auto simp: validate_incident_def opt_ok_def)

text \<open>
  Claim C4. A Trackpoint whose latitude is outside [-90, 90] or whose longitude is outside
  [-180, 180], and an Incident that carries such a latitude or longitude, is rejected with
  a validation error, and the state of the application is the one before the request: no
  document stored, no identifier handed out, nothing sent to any socket.
\<close>

theorem out_of_range_rejected:
  "(tp_lat point < - 90 \<or> 90 < tp_lat point \<or> tp_lng point < - 180 \<or> 180 < tp_lng point
      \<longrightarrow> post_location_update now created alive point st = (Inl ValidationError, st))
   \<and> ((\<exists>x. inc_lat inc = Some x \<and> (x < - 90 \<or> 90 < x))
        \<or> (\<exists>x. inc_lng inc = Some x \<and> (x < - 180 \<or> 180 < x))
      \<longrightarrow> post_incidents l created inc st = (Inl ValidationError, st))"
proof (intro conjI impI)
  assume "tp_lat point < - 90 \<or> 90 < tp_lat point \<or> tp_lng point < - 180 \<or> 180 < tp_lng point"
  then have "validate_trackpoint point = Inl ValidationError"
    by (rule validate_trackpoint_out_of_range)
  then show "post_location_update now created alive point st = (Inl ValidationError, st)"
    by (simp add: post_location_update_def)
next
  assume "(\<exists>x. inc_lat inc = Some x \<and> (x < - 90 \<or> 90 < x))
        \<or> (\<exists>x. inc_lng inc = Some x \<and> (x < - 180 \<or> 180 < x))"
  then have "validate_incident l inc = Inl ValidationError"
    by (rule validate_incident_out_of_range)
  then show "post_incidents l created inc st = (Inl ValidationError, st)"
    by (simp add: post_incidents_def)
qed

theorem out_of_range_rejected_witness:
  "90 < tp_lat far_north
   \<and> post_location_update 1 1 (\<lambda>ws. True) far_north initial = (Inl ValidationError, initial)
   \<and> inc_lng far_east = Some 180.25 \<and> (180::real) < 180.25
   \<and> post_incidents no_checks 1 far_east initial = (Inl ValidationError, initial)"
proof -
  have h1: "90 < tp_lat far_north" by (simp add: far_north_def)
  have h2: "inc_lng far_east = Some 180.25 \<and> (180::real) < 180.25" by (simp add: far_east_def)
  from out_of_range_rejected [of far_north 1 1 "\<lambda>ws. True" initial far_east no_checks] h1 h2
  show ?thesis by blast
qed



lemma dict_get_dict_set:
  "dict_get (dict_set k v d) k' = (if k' = k then Some v else dict_get d k')"
  by (induction d) (auto simp: dict_get_def)

lemma User_never_HTTPException: "User l a b c d e \<noteq> Inl (HTTPException n s)"
  by (auto simp: User_def opt_field_def split: option.splits sum.splits)

lemma User_provider: "User l a b c d e = Inr user_doc \<Longrightarrow> usr_provider user_doc = c"
  by (auto simp: User_def split: sum.splits)

lemma create_document_cases:
  "create_document created c data st =
     (if available st
      then (Inr (PStrOf (PObjectId (next_id st))),
            st\<lparr>collections := (collections st)
                  (c := collections st c @
                     [dict_set ''created_at'' (PDatetime created)
                        (dict_set ''_id'' (PObjectId (next_id st)) data)]),
               next_id := Suc (next_id st)\<rparr>)
      else (Inl StoreUnavailable, st))"
  by (simp add: create_document_def Let_def)

text \<open>
  Claim C10. The unsupported-provider error is raised exactly when the lowercased provider
  is outside the allow-set; a successful login answers with the lowercased provider and
  appends one user document that carries the lowercased provider; a request whose
  lowercased provider is allowed is accepted whenever the store is available and the
  e-mail address and photo URL pass validation; "Google" and "APPLE" are such providers.
\<close>

theorem provider_case_insensitive:
  "(fst (mock_login l created payload st) = Inl (HTTPException 400 ''Unsupported provider'')
      \<longleftrightarrow> lower (provider payload) \<notin> set providers)
   \<and> (mock_login l created payload st = (Inr response, st') \<longrightarrow>
        response = PDict [(''user_id'', PStrOf (PObjectId (next_id (db st)))),
                          (''provider'', PStr (lower (provider payload)))]
        \<and> (\<exists>d. collections (db st') ''user'' = collections (db st) ''user'' @ [d]
               \<and> dict_get d ''provider'' = Some (PStr (lower (provider payload)))))
   \<and> (lower (provider payload) \<in> set providers \<and> available (db st)
        \<and> email_str l (or_default (email payload)
              (''user-'' @ lower (provider payload) @ ''@safeshe.app'')) \<noteq> None
        \<and> opt_ok (\<lambda>p. http_url l p \<noteq> None) (photo_url payload)
      \<longrightarrow> fst (mock_login l created payload st)
            = Inr (PDict [(''user_id'', PStrOf (PObjectId (next_id (db st)))),
                          (''provider'', PStr (lower (provider payload)))]))
   \<and> lower ''Google'' \<in> set providers \<and> lower ''APPLE'' \<in> set providers"
proof (intro conjI impI)
  show "fst (mock_login l created payload st) = Inl (HTTPException 400 ''Unsupported provider'')
      \<longleftrightarrow> lower (provider payload) \<notin> set providers"
    by (auto simp: mock_login_def Let_def create_document_cases User_never_HTTPException
        split: sum.splits)
next
  assume a: "mock_login l created payload st = (Inr response, st')"
  then obtain user_doc where
    u: "User l (Some (or_default (name payload) ''SafeShe User''))
          (Some (or_default (email payload) (''user-'' @ lower (provider payload) @ ''@safeshe.app'')))
          (Some (lower (provider payload)))
          (Some (or_default (token payload) ''mock-token''))
          (photo_url payload) = Inr user_doc"
    and av: "available (db st)"
    by (auto simp: mock_login_def Let_def create_document_cases split: sum.splits if_splits)
  from User_provider [OF u] have p: "usr_provider user_doc = Some (lower (provider payload))" .
  from a u av show "response = PDict [(''user_id'', PStrOf (PObjectId (next_id (db st)))),
                          (''provider'', PStr (lower (provider payload)))]"
    by (auto simp: mock_login_def Let_def create_document_cases split: if_splits)
  from a u av have "collections (db st') ''user'' = collections (db st) ''user'' @
      [dict_set ''created_at'' (PDatetime created)
         (dict_set ''_id'' (PObjectId (next_id (db st))) (user_dump user_doc))]"
    by (auto simp: mock_login_def Let_def create_document_cases split: if_splits)
  moreover have "dict_get (dict_set ''created_at'' (PDatetime created)
         (dict_set ''_id'' (PObjectId (next_id (db st))) (user_dump user_doc))) ''provider''
       = Some (PStr (lower (provider payload)))"
    using p by (simp add: dict_get_dict_set) (simp add: dict_get_def user_dump_def opt_val_def)
  ultimately show "\<exists>d. collections (db st') ''user'' = collections (db st) ''user'' @ [d]
               \<and> dict_get d ''provider'' = Some (PStr (lower (provider payload)))"
    by blast
next
  assume a: "lower (provider payload) \<in> set providers \<and> available (db st)
        \<and> email_str l (or_default (email payload)
              (''user-'' @ lower (provider payload) @ ''@safeshe.app'')) \<noteq> None
        \<and> opt_ok (\<lambda>p. http_url l p \<noteq> None) (photo_url payload)"
  then show "fst (mock_login l created payload st)
            = Inr (PDict [(''user_id'', PStrOf (PObjectId (next_id (db st)))),
                          (''provider'', PStr (lower (provider payload)))])"
    by (auto simp: mock_login_def Let_def create_document_cases User_def opt_field_def opt_ok_def
        split: option.splits)
next
  show "lower ''Google'' \<in> set providers"
    by (simp add: lower_def lower_char_def providers_def)
  show "lower ''APPLE'' \<in> set providers"
    by (simp add: lower_def lower_char_def providers_def)
qed

lemma google_login:
  "mock_login no_checks 1 google_request initial =
     (Inr (PDict [(''user_id'', PStrOf (PObjectId 0)), (''provider'', PStr ''google'')]),
      initial\<lparr>db := \<lparr>collections = (\<lambda>c. [])(''user'' :=
          [[(''name'', PStr ''SafeShe User''), (''email'', PStr ''user-google@safeshe.app''),
            (''provider'', PStr ''google''), (''provider_id'', PStr ''mock-token''),
            (''photo_url'', PNone), (''is_active'', PBool True),
            (''_id'', PObjectId 0), (''created_at'', PDatetime 1)]]),
         next_id = 1, available = True\<rparr>\<rparr>)"
  by (simp add: mock_login_def google_request_def no_checks_def initial_def lower_def
      lower_char_def providers_def User_def opt_field_def or_default_def create_document_def
      user_dump_def opt_val_def Let_def)

theorem provider_case_insensitive_witness:
  "lower (provider google_request) \<in> set providers
   \<and> fst (mock_login no_checks 1 google_request initial)
        \<noteq> Inl (HTTPException 400 ''Unsupported provider'')
   \<and> lower (provider slack_request) \<notin> set providers
   \<and> fst (mock_login no_checks 1 slack_request initial)
        = Inl (HTTPException 400 ''Unsupported provider'')
   \<and> available (db initial)
   \<and> fst (mock_login no_checks 1 google_request initial)
        = Inr (PDict [(''user_id'', PStrOf (PObjectId 0)), (''provider'', PStr ''google'')])"
proof -
  have g: "lower (provider google_request) = ''google''"
    by (simp add: google_request_def lower_def lower_char_def)
  have h1: "lower (provider google_request) \<in> set providers"
    by (simp add: g providers_def)
  have h2: "lower (provider slack_request) \<notin> set providers"
    by (simp add: slack_request_def lower_def lower_char_def providers_def)
  have h3: "available (db initial)" and n: "next_id (db initial) = 0"
    by (simp_all add: initial_def)
  have h4: "email_str no_checks (or_default (email google_request)
              (''user-'' @ lower (provider google_request) @ ''@safeshe.app'')) \<noteq> None"
    by (simp add: no_checks_def)
  have h5: "opt_ok (\<lambda>p. http_url no_checks p \<noteq> None) (photo_url google_request)"
    by (simp add: google_request_def opt_ok_def)
  from provider_case_insensitive [of no_checks 1 google_request initial] h1 h3 h4 h5
  have c1: "fst (mock_login no_checks 1 google_request initial)
        \<noteq> Inl (HTTPException 400 ''Unsupported provider'')"
    and c2: "fst (mock_login no_checks 1 google_request initial)
        = Inr (PDict [(''user_id'', PStrOf (PObjectId 0)), (''provider'', PStr ''google'')])"
    unfolding g n by blast+
  from provider_case_insensitive [of no_checks 1 slack_request initial] h2
  have c3: "fst (mock_login no_checks 1 slack_request initial)
        = Inl (HTTPException 400 ''Unsupported provider'')"
    by blast
  from h1 h2 h3 c1 c2 c3 show ?thesis by blast
qed

lemmas eval_defs = post_location_update_def location_update_def validate_trackpoint_def
  opt_ok_def opt_val_def trackpoint_dump_def create_document_def ws_broadcast_def
  track_message_def broadcast_def try_send_def json_dumps_def active_get_def disconnect_def
  initial_def Let_def

lemma submit_without_ts:
  "post_location_update 10 11 (\<lambda>ws. True) point_u1 one_viewer =
     (Inr (PDict [(''trackpoint_id'', PStrOf (PObjectId 0))]),
      \<lparr>db = \<lparr>collections = (\<lambda>c. [])(''trackpoint'' :=
               [[(''user_id'', PStr ''u1''), (''lat'', PFloat 12.9), (''lng'', PFloat 77.5),
                 (''accuracy'', PNone), (''speed'', PNone), (''heading'', PNone),
                 (''battery'', PNone), (''ts'', PNone), (''server_ts'', PDatetime 10),
                 (''_id'', PObjectId 0), (''created_at'', PDatetime 11)]]),
             next_id = 1, available = True\<rparr>,
       manager = [''u1'' \<mapsto> [7]],
       outbox = [(7, Json (PDict [(''type'', PStr ''track''),
                  (''data'', PDict [(''user_id'', PStr ''u1''), (''lat'', PFloat 12.9),
                     (''lng'', PFloat 77.5), (''_id'', PStrOf (PObjectId 0)),
                     (''server_ts'', PIso 10)])]))]\<rparr>)"
  by (simp add: eval_defs point_u1_def one_viewer_def)

text \<open>
  Claim C7, at a valid Trackpoint that carries a client timestamp \<open>ts\<close>, with one live viewer
  on the channel. The point is stored and its identifier returned, but the dictionary
  handed to \<open>broadcast\<close> holds \<open>ts\<close> as a datetime, \<open>json.dumps\<close> raises for it inside the
  \<open>try\<close>, and so no text reaches the viewer and the viewer is removed from the registry.
\<close>

theorem submit_with_client_ts_drops_viewers:
  "post_location_update 10 11 (\<lambda>ws. True) point_u1_ts one_viewer =
     (Inr (PDict [(''trackpoint_id'', PStrOf (PObjectId 0))]),
      \<lparr>db = \<lparr>collections = (\<lambda>c. [])(''trackpoint'' :=
               [[(''user_id'', PStr ''u1''), (''lat'', PFloat 12.9), (''lng'', PFloat 77.5),
                 (''accuracy'', PNone), (''speed'', PNone), (''heading'', PNone),
                 (''battery'', PNone), (''ts'', PDatetime 5), (''server_ts'', PDatetime 10),
                 (''_id'', PObjectId 0), (''created_at'', PDatetime 11)]]),
             next_id = 1, available = True\<rparr>,
       manager = Map.empty,
       outbox = []\<rparr>)"
  by (simp add: eval_defs point_u1_ts_def point_u1_def one_viewer_def)

lemma json_serializable_opt_float [simp]: "json_serializable (opt_val PFloat x)"
  by (cases x) (simp_all add: opt_val_def)

lemma track_message_serializable:
  "json_serializable (track_message point (PStrOf i) now) \<longleftrightarrow> tp_ts point = None"
  by (cases "tp_ts point"; cases "tp_accuracy point"; cases "tp_speed point";
      cases "tp_heading point"; cases "tp_battery point")
    (simp_all add: track_message_def trackpoint_dump_def opt_val_def)

lemma active_get_fold_disconnect_all:
  "active_get (fold (disconnect u) (active_get reg u) reg) u = []"
  using fold_remove1_filter [of "[]" "\<lambda>ws. True" "active_get reg u"]
  by (simp add: active_get_fold_disconnect)

text \<open>
  What \<open>location_update\<close> does in general: with a client timestamp nothing is delivered and
  the user's viewers are all dropped; without one, every live viewer receives the message.
\<close>

lemma location_update_with_ts:
  assumes "available (db st)" and "tp_ts point = Some t"
  shows "fst (location_update now created alive point st)
           = Inr (PDict [(''trackpoint_id'', PStrOf (PObjectId (next_id (db st))))])
       \<and> outbox (snd (location_update now created alive point st)) = outbox st
       \<and> active_get (manager (snd (location_update now created alive point st)))
            (tp_user_id point) = []"
proof -
  have "\<not> json_serializable (track_message point (PStrOf (PObjectId (next_id (db st)))) now)"
    using assms(2) by (simp add: track_message_serializable)
  then have "send_ok alive (track_message point (PStrOf (PObjectId (next_id (db st)))) now)
      = (\<lambda>ws. False)"
    by (simp add: send_ok_def fun_eq_iff)
  then show ?thesis using assms(1)
    by (simp add: location_update_def create_document_cases ws_broadcast_def broadcast_eq
        active_get_fold_disconnect_all Let_def)
qed

lemma location_update_without_ts:
  assumes "available (db st)" and "tp_ts point = None"
  shows "fst (location_update now created alive point st)
           = Inr (PDict [(''trackpoint_id'', PStrOf (PObjectId (next_id (db st))))])
       \<and> outbox (snd (location_update now created alive point st)) = outbox st @
           map (\<lambda>ws. (ws, Json (track_message point (PStrOf (PObjectId (next_id (db st)))) now)))
             (filter alive (active_get (manager st) (tp_user_id point)))"
proof -
  have "json_serializable (track_message point (PStrOf (PObjectId (next_id (db st)))) now)"
    using assms(2) by (simp add: track_message_serializable)
  then have "send_ok alive (track_message point (PStrOf (PObjectId (next_id (db st)))) now)
      = alive"
    by (simp add: send_ok_def fun_eq_iff)
  then show ?thesis using assms(1)
    by (simp add: location_update_def create_document_cases ws_broadcast_def broadcast_eq Let_def)
qed

lemma two_points_db:
  "db two_points = \<lparr>collections = (\<lambda>c. [])(''trackpoint'' :=
               [[(''user_id'', PStr ''u1''), (''lat'', PFloat 12.9), (''lng'', PFloat 77.5),
                 (''accuracy'', PNone), (''speed'', PNone), (''heading'', PNone),
                 (''battery'', PNone), (''ts'', PNone), (''server_ts'', PDatetime 10),
                 (''_id'', PObjectId 0), (''created_at'', PDatetime 11)],
                [(''user_id'', PStr ''u1''), (''lat'', PFloat 13.1), (''lng'', PFloat 77.5),
                 (''accuracy'', PNone), (''speed'', PNone), (''heading'', PNone),
                 (''battery'', PNone), (''ts'', PNone), (''server_ts'', PDatetime 20),
                 (''_id'', PObjectId 1), (''created_at'', PDatetime 21)]]),
             next_id = 2, available = True\<rparr>
   \<and> manager two_points = Map.empty \<and> outbox two_points = []"
  by (simp add: two_points_def eval_defs point_u1_def second_point_u1_def)

lemmas ws_defs = websocket_endpoint_def connect_def send_last_def last_message_def
  get_documents_def matches_def dict_get_def sort_reverse_def serialize_id_def
  json_dumps_default_str_def active_get_def

text \<open>
  Claim C6, after two accepted submissions for u1. The query is limited to one document
  before the sort, so the socket that opens receives as its "last" message the first
  document the store returns, here the older of the two points.
\<close>

theorem websocket_open_pushes_oldest:
  "outbox (snd (websocket_endpoint True (\<lambda>ws. True) [] 7 ''u1'' two_points)) =
     [(7, Json (PDict [(''type'', PStr ''last''),
        (''data'', PDict [(''user_id'', PStr ''u1''), (''lat'', PFloat 12.9), (''lng'', PFloat 77.5),
                 (''accuracy'', PNone), (''speed'', PNone), (''heading'', PNone),
                 (''battery'', PNone), (''ts'', PNone), (''server_ts'', PStrOf (PDatetime 10)),
                 (''_id'', PStrOf (PObjectId 0)), (''created_at'', PStrOf (PDatetime 11))])]))]"
  using two_points_db by (simp add: ws_defs)

lemma sort_reverse_set: "set (sort_reverse key xs) = set xs"
  by (simp add: sort_reverse_def)









lemma last_message_first_found:
  assumes "available st"
  shows "(filter (matches [(''user_id'', PStr u)]) (collections st ''trackpoint'') = []
            \<longrightarrow> last_message u st = Inr None)
       \<and> (filter (matches [(''user_id'', PStr u)]) (collections st ''trackpoint'') = d # rest
            \<and> dict_get d ''_id'' = Some i
            \<longrightarrow> last_message u st = Inr (Some (Json (stringify
                   (PDict [(''type'', PStr ''last''),
                           (''data'', PDict (dict_set ''_id'' (PStrOf i) d))])))))"
  using assms
  by (auto simp: last_message_def get_documents_def sort_reverse_def serialize_id_def
      json_dumps_default_str_def)


end
